theory Spec2Isabelle
  imports Complex_Main
begin

section \<open>The trade simulator: indicator engine, position machine, ingestion\<close>

text \<open>
  The repository holds two near-duplicate React components, \<open>src/components/TradeSimWeb.tsx\<close>
  and an earlier variant (\<open>src/unnamed/part_000\<close>). Both define the same strategy constants,
  the four indicator functions, the net-profit calculation and the replay loop \<open>simulate\<close>.
  Definitions without a suffix follow \<open>TradeSimWeb.tsx\<close>; definitions with the suffix
  \<open>_p0\<close> follow \<open>part_000\<close>.

  A JavaScript \<open>number\<close> is a double. Prices, volumes, moving averages and profits are
  modelled as exact \<open>real\<close>s: finite values, without rounding. The RSI and the quotient
  of the VWAP are computed on \<open>jsnum\<close> values (defined below), which add the two
  infinities and \<open>NaN\<close> and let a result beyond the range of a double overflow to an
  infinity, so that division by zero and overflow behave as in the program. The two
  divisions that stay on the reals are the one by the period in \<open>calculate_sma\<close> and the
  one by the entry price in \<open>calculate_net_profit\<close>; the theorems about them either
  assume a positive divisor or do not depend on the quotient.
  \<open>null\<close> and \<open>undefined\<close> results are \<open>None\<close>.
\<close>

subsection \<open>Strategy parameters\<close>

definition RSI_PERIOD :: nat where "RSI_PERIOD = 14"
definition SMA_SHORT_PERIOD :: nat where "SMA_SHORT_PERIOD = 5"
definition SMA_LONG_PERIOD :: nat where "SMA_LONG_PERIOD = 20"
definition MACD_FAST :: nat where "MACD_FAST = 12"
definition MACD_SLOW :: nat where "MACD_SLOW = 26"
definition MACD_SIGNAL :: nat where "MACD_SIGNAL = 9"
definition RSI_BUY_THRESHOLD :: real where "RSI_BUY_THRESHOLD = 30"
definition VWAP_CONDITION :: bool where "VWAP_CONDITION = True"
definition TAKE_PROFIT_PCT :: real where "TAKE_PROFIT_PCT = 0.7"
definition STOP_LOSS_PCT :: real where "STOP_LOSS_PCT = - 0.5"
definition CAPITAL_GAIN_TAX_RATE :: real where "CAPITAL_GAIN_TAX_RATE = 0.22"
definition BROKER_COMMISSION_RATE :: real where "BROKER_COMMISSION_RATE = 0.0023"
definition MAX_HOLD_TIME :: nat where "MAX_HOLD_TIME = 90"

subsection \<open>Net profit\<close>

text \<open>
  \<^verbatim>\<open>
  function calculate_net_profit(entry, exit) {
    let gross = (exit - entry) / entry;
    gross -= BROKER_COMMISSION_RATE * 2;
    if (gross > 0) gross *= 1 - CAPITAL_GAIN_TAX_RATE;
    return gross * 100;
  }
  \<close>
  The three assignments to \<open>gross\<close> are the three \<open>let\<close>-bound values, in the same order.
\<close>

definition calculate_net_profit :: "real \<Rightarrow> real \<Rightarrow> real" where
  "calculate_net_profit entry exit =
     (let gross0 = (exit - entry) / entry;
          gross1 = gross0 - BROKER_COMMISSION_RATE * 2;
          gross2 = (if gross1 > 0 then gross1 * (1 - CAPITAL_GAIN_TAX_RATE) else gross1)
      in gross2 * 100)"

text \<open>The same function as \<open>part_000\<close> writes it (an arrow function with the same body).\<close>

definition calculate_net_profit_p0 :: "real \<Rightarrow> real \<Rightarrow> real" where
  "calculate_net_profit_p0 entry exit =
     (let gross0 = (exit - entry) / entry;
          gross1 = gross0 - BROKER_COMMISSION_RATE * 2;
          gross2 = (if gross1 > 0 then gross1 * (1 - CAPITAL_GAIN_TAX_RATE) else gross1)
      in gross2 * 100)"

subsection \<open>Array helpers\<close>

definition slice_last :: "nat \<Rightarrow> 'a list \<Rightarrow> 'a list" where
  \<comment> \<open>\<open>arr.slice(-n)\<close>: the last \<open>n\<close> elements, the whole array when it is shorter;
      \<open>-0\<close> is \<open>0\<close>, so \<open>n = 0\<close> also gives the whole array\<close>
  "slice_last n xs = (if n = 0 then xs else drop (length xs - n) xs)"

definition slice_to :: "nat \<Rightarrow> 'a list \<Rightarrow> 'a list" where
  \<comment> \<open>\<open>arr.slice(0, n)\<close>\<close>
  "slice_to n xs = take n xs"

definition slice_from :: "nat \<Rightarrow> 'a list \<Rightarrow> 'a list" where
  \<comment> \<open>\<open>arr.slice(n)\<close>\<close>
  "slice_from n xs = drop n xs"

definition reduce_sum :: "real list \<Rightarrow> real" where
  \<comment> \<open>\<open>arr.reduce((a, b) => a + b, 0)\<close>\<close>
  "reduce_sum xs = foldl (\<lambda>a b. a + b) 0 xs"

definition at_last :: "'a list \<Rightarrow> 'a option" where
  \<comment> \<open>\<open>arr.at(-1)\<close>: \<open>undefined\<close> on the empty array\<close>
  "at_last xs = (if xs = [] then None else Some (last xs))"

definition truthy :: "real option \<Rightarrow> bool" where
  \<comment> \<open>a value used as a condition: \<open>null\<close>, \<open>undefined\<close> and \<open>0\<close> are falsy\<close>
  "truthy x = (case x of None \<Rightarrow> False | Some r \<Rightarrow> r \<noteq> 0)"

subsection \<open>Numbers with infinities and \<open>NaN\<close>\<close>

text \<open>
  A \<open>jsnum\<close> is a finite number, one of the two infinities or \<open>NaN\<close>. An arithmetic
  result of magnitude \<open>2 ^ 1024 - 2 ^ 970\<close> or more (half a unit in the last place above
  the largest double) becomes an infinity, and one of magnitude \<open>2 ^ -1075\<close> or less
  (half the smallest positive double) becomes zero. Rounding to 53 significant bits
  between these two bounds is not modelled, and the two zeros of a double are the one
  value \<open>Fin 0\<close>. A zero divisor counts as \<open>+0\<close>: the divisors below are sums that
  start from \<open>0\<close>, and such a sum is never \<open>-0\<close>.
\<close>

datatype jsnum = Fin real | PInf | NInf | NaN

definition overflow_threshold :: real where
  "overflow_threshold = 2 ^ 1024 - 2 ^ 970"

definition underflow_threshold :: real where
  "underflow_threshold = 1 / 2 ^ 1075"

definition js_round :: "real \<Rightarrow> jsnum" where
  "js_round x =
     (if overflow_threshold \<le> x then PInf
      else if x \<le> - overflow_threshold then NInf
      else if \<bar>x\<bar> \<le> underflow_threshold then Fin 0
      else Fin x)"

fun js_neg :: "jsnum \<Rightarrow> jsnum" where
  "js_neg (Fin a) = Fin (- a)"
| "js_neg PInf = NInf"
| "js_neg NInf = PInf"
| "js_neg NaN = NaN"

fun js_add :: "jsnum \<Rightarrow> jsnum \<Rightarrow> jsnum" where
  "js_add (Fin a) (Fin b) = js_round (a + b)"
| "js_add NaN y = NaN"
| "js_add x NaN = NaN"
| "js_add PInf NInf = NaN"
| "js_add NInf PInf = NaN"
| "js_add PInf y = PInf"
| "js_add NInf y = NInf"
| "js_add x PInf = PInf"
| "js_add x NInf = NInf"

definition js_sub :: "jsnum \<Rightarrow> jsnum \<Rightarrow> jsnum" where
  "js_sub x y = js_add x (js_neg y)"

fun js_div :: "jsnum \<Rightarrow> jsnum \<Rightarrow> jsnum" where
  "js_div (Fin a) (Fin b) =
     (if b = 0 then (if a = 0 then NaN else if 0 < a then PInf else NInf)
      else js_round (a / b))"
| "js_div NaN y = NaN"
| "js_div x NaN = NaN"
| "js_div (Fin a) y = Fin 0"
| "js_div PInf (Fin b) = (if b < 0 then NInf else PInf)"
| "js_div NInf (Fin b) = (if b < 0 then PInf else NInf)"
| "js_div x y = NaN"

fun js_lt :: "jsnum \<Rightarrow> jsnum \<Rightarrow> bool" where
  "js_lt (Fin a) (Fin b) = (a < b)"
| "js_lt NaN y = False"
| "js_lt x NaN = False"
| "js_lt PInf y = False"
| "js_lt x NInf = False"
| "js_lt x y = True"

definition js_gt :: "jsnum \<Rightarrow> jsnum \<Rightarrow> bool" where
  "js_gt x y = js_lt y x"

definition js_truthy :: "jsnum option \<Rightarrow> bool" where
  \<comment> \<open>a number used as a condition: \<open>null\<close>, \<open>0\<close> and \<open>NaN\<close> are falsy\<close>
  "js_truthy x = (case x of None \<Rightarrow> False | Some r \<Rightarrow> r \<noteq> Fin 0 \<and> r \<noteq> NaN)"

definition reduce_sum_js :: "jsnum list \<Rightarrow> jsnum" where
  \<comment> \<open>\<open>arr.reduce((a, b) => a + b, 0)\<close> on doubles\<close>
  "reduce_sum_js xs = foldl (\<lambda>a b. js_add a b) (Fin 0) xs"

subsection \<open>Indicators (\<open>TradeSimWeb.tsx\<close>)\<close>

definition rsi_deltas :: "jsnum list \<Rightarrow> jsnum list" where
  \<comment> \<open>\<open>data.map((v, i) => (i === 0 ? 0 : v - data[i - 1]))\<close>\<close>
  "rsi_deltas data =
     map (\<lambda>i. if i = 0 then Fin 0 else js_sub (data ! i) (data ! (i - 1))) [0..<length data]"

definition rsi_avgUp :: "jsnum list \<Rightarrow> jsnum" where
  "rsi_avgUp data =
     (let up = map (\<lambda>d. if js_gt d (Fin 0) then d else Fin 0) (rsi_deltas data)
      in js_div (reduce_sum_js (slice_last RSI_PERIOD up)) (Fin (real RSI_PERIOD)))"

definition rsi_avgDown :: "jsnum list \<Rightarrow> jsnum" where
  "rsi_avgDown data =
     (let down = map (\<lambda>d. if js_lt d (Fin 0) then js_neg d else Fin 0) (rsi_deltas data)
      in js_div (reduce_sum_js (slice_last RSI_PERIOD down)) (Fin (real RSI_PERIOD)))"

definition calculate_rsi :: "jsnum list \<Rightarrow> jsnum option" where
  "calculate_rsi data =
     (if length data < RSI_PERIOD + 1 then None
      else let avgUp = rsi_avgUp data; avgDown = rsi_avgDown data
           in if avgDown = Fin 0 then Some (Fin 100)
              else let rs = js_div avgUp avgDown
                   in Some (js_sub (Fin 100) (js_div (Fin 100) (js_add (Fin 1) rs))))"

definition calculate_sma :: "real list \<Rightarrow> nat \<Rightarrow> real option" where
  "calculate_sma data period =
     (if length data < period then None
      else Some (reduce_sum (slice_last period data) / real period))"

definition ema_push :: "real \<Rightarrow> real list \<Rightarrow> real \<times> nat \<Rightarrow> real list" where
  \<comment> \<open>the reducer of \<open>ema\<close>: \<open>acc\<close>, the current element and its index\<close>
  "ema_push k acc ci =
     (case ci of (cur, i) \<Rightarrow>
        if i = 0 then acc @ [cur] else acc @ [cur * k + acc ! (i - 1) * (1 - k)])"

definition ema :: "real list \<Rightarrow> nat \<Rightarrow> real list" where
  "ema arr n =
     (let k = 2 / (real n + 1)
      in foldl (ema_push k) [] (zip arr [0..<length arr]))"

definition calculate_macd :: "real list \<Rightarrow> real option \<times> real option" where
  "calculate_macd data =
     (if length data < MACD_SLOW then (None, None)
      else let fast = ema data MACD_FAST;
               slow = ema data MACD_SLOW;
               macd = map (\<lambda>(v, i). v - slow ! i) (zip fast [0..<length fast]);
               signal = ema (slice_from (MACD_SLOW - 1) macd) MACD_SIGNAL
           in (at_last macd, at_last signal))"

definition vwap_loop :: "real list \<Rightarrow> real list \<Rightarrow> real \<times> real" where
  \<comment> \<open>the \<open>for\<close> loop of \<open>calculate_vwap\<close>: the final \<open>(cumPV, cumV)\<close>\<close>
  "vwap_loop p v =
     foldl (\<lambda>(cumPV, cumV) i. (cumPV + p ! i * v ! i, cumV + v ! i)) (0, 0) [0..<length p]"

definition calculate_vwap :: "real list \<Rightarrow> real list \<Rightarrow> jsnum option" where
  \<comment> \<open>the quotient is a double division: a zero \<open>cumV\<close> gives an infinity or \<open>NaN\<close>\<close>
  "calculate_vwap p v =
     (if length p < 2 \<or> length v \<noteq> length p then None
      else case vwap_loop p v of (cumPV, cumV) \<Rightarrow> Some (js_div (Fin cumPV) (Fin cumV)))"

subsection \<open>The replay loop \<open>simulate\<close> (\<open>TradeSimWeb.tsx\<close>)\<close>

text \<open>
  The reason labels pushed by the loop are string constants (\<open>"RSI<30"\<close>, the VWAP
  breakout, the golden cross and the MACD upward cross, the last three written in Korean
  in the source); each becomes a constructor. A BUY event carries the list of labels that
  the source joins with \<open>", "\<close>.
\<close>

datatype reason = RSI_lt_30 | VWAP_breakout | Golden_cross | MACD_up_cross

datatype kind = BUY | SELL

record event =
  ev_time :: nat
  ev_type :: kind
  ev_price :: real
  ev_reason :: "reason list option"
  ev_profit :: "real option"

record sim_state =
  holding :: bool
  entry :: real
  entryIdx :: nat
  newLogs :: "event list"

definition cond_rsi :: "jsnum option \<Rightarrow> bool" where
  \<comment> \<open>\<open>rsi && rsi < RSI_BUY_THRESHOLD\<close>; the left operand of \<open>&&\<close> is falsy when it is
      \<open>null\<close> and also when it is \<open>0\<close> or \<open>NaN\<close>\<close>
  "cond_rsi rsi =
     (js_truthy rsi
      \<and> (case rsi of Some r \<Rightarrow> js_lt r (Fin RSI_BUY_THRESHOLD) | None \<Rightarrow> False))"

definition cond_vwap :: "real \<Rightarrow> jsnum option \<Rightarrow> bool" where
  \<comment> \<open>\<open>VWAP_CONDITION && vwap && p > vwap\<close>\<close>
  "cond_vwap p vwap =
     (VWAP_CONDITION \<and> js_truthy vwap
      \<and> (case vwap of Some w \<Rightarrow> js_gt (Fin p) w | None \<Rightarrow> False))"

definition cond_cross :: "real option \<Rightarrow> real option \<Rightarrow> bool" where
  \<comment> \<open>\<open>a && b && a > b\<close>, for \<open>sma5\<close>, \<open>sma20\<close> and for \<open>macd\<close>, \<open>signal\<close>\<close>
  "cond_cross a b =
     (case (a, b) of (Some x, Some y) \<Rightarrow> x \<noteq> 0 \<and> y \<noteq> 0 \<and> x > y | _ \<Rightarrow> False)"

definition signal_reasons :: "real list \<Rightarrow> real list \<Rightarrow> nat \<Rightarrow> reason list" where
  "signal_reasons prices volumes i =
     (let p = prices ! i;
          rsi = calculate_rsi (map Fin (slice_to (i + 1) prices));
          sma5 = calculate_sma (slice_to (i + 1) prices) SMA_SHORT_PERIOD;
          sma20 = calculate_sma (slice_to (i + 1) prices) SMA_LONG_PERIOD;
          vwap = calculate_vwap (slice_to (i + 1) prices) (slice_to (i + 1) volumes);
          ms = calculate_macd (slice_to (i + 1) prices);
          macd = fst ms;
          signal = snd ms;
          reasons0 = [];
          reasons1 = (if cond_rsi rsi then reasons0 @ [RSI_lt_30] else reasons0);
          reasons2 = (if cond_vwap p vwap then reasons1 @ [VWAP_breakout] else reasons1);
          reasons3 = (if cond_cross sma5 sma20 then reasons2 @ [Golden_cross] else reasons2);
          reasons4 = (if cond_cross macd signal then reasons3 @ [MACD_up_cross] else reasons3)
      in reasons4)"

definition sim_step :: "real list \<Rightarrow> real list \<Rightarrow> nat \<Rightarrow> sim_state \<Rightarrow> sim_state" where
  \<comment> \<open>one iteration of the \<open>for\<close> loop; the local \<open>v = volumes[i] || 1\<close> is never read\<close>
  "sim_step prices volumes i s =
     (let p = prices ! i;
          reasons = signal_reasons prices volumes i
      in if \<not> holding s \<and> length reasons = 4 then
           s\<lparr>holding := True, entry := p, entryIdx := i,
             newLogs := newLogs s @
               [\<lparr>ev_time = i, ev_type = BUY, ev_price = p,
                 ev_reason = Some reasons, ev_profit = None\<rparr>]\<rparr>
         else if holding s then
           (let net = calculate_net_profit (entry s) p
            in if net \<ge> TAKE_PROFIT_PCT \<or> net \<le> STOP_LOSS_PCT
                  \<or> int i - int (entryIdx s) \<ge> int MAX_HOLD_TIME
               then s\<lparr>holding := False,
                      newLogs := newLogs s @
                        [\<lparr>ev_time = i, ev_type = SELL, ev_price = p,
                          ev_reason = None, ev_profit = Some net\<rparr>]\<rparr>
               else s)
         else s)"

function sim_loop :: "real list \<Rightarrow> real list \<Rightarrow> nat \<Rightarrow> sim_state \<Rightarrow> sim_state" where
  "sim_loop prices volumes i s =
     (if i < length prices then sim_loop prices volumes (i + 1) (sim_step prices volumes i s)
      else s)"
  by pat_completeness auto
termination
  by (relation "measure (\<lambda>(prices, volumes, i, s). length prices - i)") auto

declare sim_loop.simps [simp del]

definition sim_init :: sim_state where
  "sim_init = \<lparr>holding = False, entry = 0, entryIdx = 0, newLogs = []\<rparr>"

definition simulate :: "real list \<Rightarrow> real list \<Rightarrow> event list" where
  \<comment> \<open>the log handed to \<open>setLogs\<close>\<close>
  "simulate prices volumes = newLogs (sim_loop prices volumes 0 sim_init)"

definition state_at :: "real list \<Rightarrow> real list \<Rightarrow> nat \<Rightarrow> sim_state" where
  \<comment> \<open>the loop state on entry to iteration \<open>i\<close>, after iterations \<open>0, \<dots>, i - 1\<close>\<close>
  "state_at prices volumes i = foldl (\<lambda>s j. sim_step prices volumes j s) sim_init [0..<i]"

definition buy_at :: "real list \<Rightarrow> real list \<Rightarrow> nat \<Rightarrow> bool" where
  \<comment> \<open>the log of a pass holds a BUY event with time index \<open>i\<close>\<close>
  "buy_at prices volumes i =
     list_ex (\<lambda>e. ev_type e = BUY \<and> ev_time e = i) (simulate prices volumes)"

fun run_log :: "nat option \<Rightarrow> event list \<Rightarrow> nat option option" where
  \<comment> \<open>reads an event log from a position (\<open>None\<close>: flat, \<open>Some t\<close>: open since the BUY at
      \<open>t\<close>): a BUY is allowed only when flat, a SELL only when open and at a later index
      than its BUY. The result is the position after the log, or \<open>None\<close> if an event is
      not allowed.\<close>
  "run_log pos [] = Some pos"
| "run_log None (e # es) =
     (if ev_type e = BUY then run_log (Some (ev_time e)) es else None)"
| "run_log (Some t) (e # es) =
     (if ev_type e = SELL \<and> t < ev_time e then run_log None es else None)"

subsection \<open>Indicators and replay loop (\<open>part_000\<close>)\<close>

definition calculate_rsi_p0 :: "jsnum list \<Rightarrow> jsnum option" where
  "calculate_rsi_p0 data =
     (if length data < RSI_PERIOD + 1 then None
      else let deltas = map (\<lambda>i. if i = 0 then Fin 0 else js_sub (data ! i) (data ! (i - 1)))
                          [0..<length data];
               up = map (\<lambda>d. if js_gt d (Fin 0) then d else Fin 0) deltas;
               down = map (\<lambda>d. if js_lt d (Fin 0) then js_neg d else Fin 0) deltas;
               avgUp = js_div (reduce_sum_js (slice_last RSI_PERIOD up)) (Fin (real RSI_PERIOD));
               avgDown = js_div (reduce_sum_js (slice_last RSI_PERIOD down))
                           (Fin (real RSI_PERIOD))
           in if avgDown = Fin 0 then Some (Fin 100)
              else let rs = js_div avgUp avgDown
                   in Some (js_sub (Fin 100) (js_div (Fin 100) (js_add (Fin 1) rs))))"

definition calculate_sma_p0 :: "real list \<Rightarrow> nat \<Rightarrow> real option" where
  "calculate_sma_p0 data period =
     (if length data < period then None
      else Some (reduce_sum (slice_last period data) / real period))"

definition ema_p0 :: "real list \<Rightarrow> nat \<Rightarrow> real list" where
  "ema_p0 arr n =
     (let k = 2 / (real n + 1)
      in foldl (\<lambda>acc (cur, i).
                  if i = 0 then acc @ [cur] else acc @ [cur * k + acc ! (i - 1) * (1 - k)])
           [] (zip arr [0..<length arr]))"

definition calculate_macd_p0 :: "real list \<Rightarrow> real option \<times> real option" where
  "calculate_macd_p0 data =
     (if length data < MACD_SLOW then (None, None)
      else let fast = ema_p0 data MACD_FAST;
               slow = ema_p0 data MACD_SLOW;
               macd = map (\<lambda>(v, i). v - slow ! i) (zip fast [0..<length fast]);
               signal = ema_p0 (slice_from (MACD_SLOW - 1) macd) MACD_SIGNAL
           in (at_last macd, at_last signal))"

definition calculate_vwap_p0 :: "real list \<Rightarrow> real list \<Rightarrow> jsnum option" where
  "calculate_vwap_p0 p v =
     (if length p < 2 \<or> length v \<noteq> length p then None
      else case foldl (\<lambda>(cumPV, cumV) i. (cumPV + p ! i * v ! i, cumV + v ! i)) (0, 0)
                  [0..<length p]
           of (cumPV, cumV) \<Rightarrow> Some (js_div (Fin cumPV) (Fin cumV)))"

definition signal_reasons_p0 :: "real list \<Rightarrow> real list \<Rightarrow> nat \<Rightarrow> reason list" where
  "signal_reasons_p0 prices volumes i =
     (let p = prices ! i;
          rsi = calculate_rsi_p0 (map Fin (slice_to (i + 1) prices));
          sma5 = calculate_sma_p0 (slice_to (i + 1) prices) SMA_SHORT_PERIOD;
          sma20 = calculate_sma_p0 (slice_to (i + 1) prices) SMA_LONG_PERIOD;
          vwap = calculate_vwap_p0 (slice_to (i + 1) prices) (slice_to (i + 1) volumes);
          ms = calculate_macd_p0 (slice_to (i + 1) prices);
          macd = fst ms;
          signal = snd ms;
          reasons0 = [];
          reasons1 = (if js_truthy rsi
                         \<and> (case rsi of Some r \<Rightarrow> js_lt r (Fin RSI_BUY_THRESHOLD)
                                         | None \<Rightarrow> False)
                      then reasons0 @ [RSI_lt_30] else reasons0);
          reasons2 = (if VWAP_CONDITION \<and> js_truthy vwap
                         \<and> (case vwap of Some w \<Rightarrow> js_gt (Fin p) w | None \<Rightarrow> False)
                      then reasons1 @ [VWAP_breakout] else reasons1);
          reasons3 = (if (case (sma5, sma20) of
                            (Some a, Some b) \<Rightarrow> a \<noteq> 0 \<and> b \<noteq> 0 \<and> a > b | _ \<Rightarrow> False)
                      then reasons2 @ [Golden_cross] else reasons2);
          reasons4 = (if (case (macd, signal) of
                            (Some m, Some g) \<Rightarrow> m \<noteq> 0 \<and> g \<noteq> 0 \<and> m > g | _ \<Rightarrow> False)
                      then reasons3 @ [MACD_up_cross] else reasons3)
      in reasons4)"

definition sim_step_p0 :: "real list \<Rightarrow> real list \<Rightarrow> nat \<Rightarrow> sim_state \<Rightarrow> sim_state" where
  \<comment> \<open>\<open>part_000\<close> assigns \<open>entry\<close>, \<open>entryIdx\<close>, \<open>holding\<close> and then pushes the BUY event;
      on a SELL it pushes the event and then clears \<open>holding\<close>\<close>
  "sim_step_p0 prices volumes i s =
     (let p = prices ! i;
          reasons = signal_reasons_p0 prices volumes i
      in if \<not> holding s \<and> length reasons = 4 then
           (let s1 = s\<lparr>entry := p\<rparr>;
                s2 = s1\<lparr>entryIdx := i\<rparr>;
                s3 = s2\<lparr>holding := True\<rparr>
            in s3\<lparr>newLogs := newLogs s3 @
                 [\<lparr>ev_time = i, ev_type = BUY, ev_price = p,
                   ev_reason = Some reasons, ev_profit = None\<rparr>]\<rparr>)
         else if holding s then
           (let net = calculate_net_profit_p0 (entry s) p
            in if net \<ge> TAKE_PROFIT_PCT \<or> net \<le> STOP_LOSS_PCT
                  \<or> int i - int (entryIdx s) \<ge> int MAX_HOLD_TIME
               then (let s1 = s\<lparr>newLogs := newLogs s @
                                [\<lparr>ev_time = i, ev_type = SELL, ev_price = p,
                                  ev_reason = None, ev_profit = Some net\<rparr>]\<rparr>
                     in s1\<lparr>holding := False\<rparr>)
               else s)
         else s)"

function sim_loop_p0 :: "real list \<Rightarrow> real list \<Rightarrow> nat \<Rightarrow> sim_state \<Rightarrow> sim_state" where
  "sim_loop_p0 prices volumes i s =
     (if i < length prices
      then sim_loop_p0 prices volumes (i + 1) (sim_step_p0 prices volumes i s)
      else s)"
  by pat_completeness auto
termination
  by (relation "measure (\<lambda>(prices, volumes, i, s). length prices - i)") auto

declare sim_loop_p0.simps [simp del]

definition simulate_p0 :: "real list \<Rightarrow> real list \<Rightarrow> event list" where
  "simulate_p0 prices volumes = newLogs (sim_loop_p0 prices volumes 0 sim_init)"

subsection \<open>Ingestion: the message handler and the capped buffers\<close>

text \<open>
  A message is the parsed JSON object: its \<open>type\<close> field and its \<open>data\<close> array, which a
  non-trade message may lack. A trade record has the fields \<open>p\<close> and \<open>v\<close>, either of which
  may be missing (\<open>undefined\<close>). Reading a property of \<open>undefined\<close> throws a \<open>TypeError\<close>.
  The price buffer of \<open>TradeSimWeb.tsx\<close> stores whatever \<open>p\<close> was, so its elements are
  optional.
\<close>

record trade =
  trade_p :: "real option"
  trade_v :: "real option"

record message =
  msg_type :: string
  msg_data :: "trade list option"

record buffers =
  buf_prices :: "real option list"
  buf_volumes :: "real list"

datatype js_error = TypeError

definition or_1 :: "real option \<Rightarrow> real" where
  \<comment> \<open>\<open>volume || 1\<close>: \<open>undefined\<close> and \<open>0\<close> are falsy\<close>
  "or_1 volume = (case volume of None \<Rightarrow> 1 | Some x \<Rightarrow> if x = 0 then 1 else x)"

definition push_capped :: "'a list \<Rightarrow> 'a \<Rightarrow> 'a list" where
  \<comment> \<open>\<open>[...prev.slice(-99), x]\<close>\<close>
  "push_capped prev x = slice_last 99 prev @ [x]"

definition onTrade :: "real option \<Rightarrow> real \<Rightarrow> buffers \<Rightarrow> buffers" where
  \<comment> \<open>the callback \<open>TradeSimWeb\<close> passes to \<open>useFinnhubWS\<close>\<close>
  "onTrade price volume b =
     b\<lparr>buf_prices := push_capped (buf_prices b) price,
       buf_volumes := push_capped (buf_volumes b) volume\<rparr>"

definition onmessage :: "message \<Rightarrow> buffers \<Rightarrow> js_error + buffers" where
  \<comment> \<open>\<open>ws.onmessage\<close> of \<open>useFinnhubWS\<close>\<close>
  "onmessage m b =
     (if msg_type m = ''trade'' then
        (case msg_data m of
           None \<Rightarrow> Inl TypeError
         | Some ds \<Rightarrow>
             (case ds of
                [] \<Rightarrow> Inr b
              | d # _ \<Rightarrow> Inr (onTrade (trade_p d) (or_1 (trade_v d)) b)))
      else Inr b)"

definition onmessage_p0 :: "message \<Rightarrow> buffers \<Rightarrow> js_error + buffers" where
  \<comment> \<open>\<open>ws.onmessage\<close> of \<open>part_000\<close>: \<open>data.data[0]?.p\<close> is \<open>undefined\<close> on an empty array,
      and a falsy price (\<open>undefined\<close> or \<open>0\<close>) records nothing\<close>
  "onmessage_p0 m b =
     (if msg_type m = ''trade'' then
        (case msg_data m of
           None \<Rightarrow> Inl TypeError
         | Some ds \<Rightarrow>
             (let price = (case ds of [] \<Rightarrow> None | d # _ \<Rightarrow> trade_p d);
                  volume = or_1 (case ds of [] \<Rightarrow> None | d # _ \<Rightarrow> trade_v d)
              in if truthy price
                 then Inr (b\<lparr>buf_prices := push_capped (buf_prices b) price,
                            buf_volumes := push_capped (buf_volumes b) volume\<rparr>)
                 else Inr b))
      else Inr b)"

definition onTrade_all :: "(real option \<times> real) list \<Rightarrow> buffers \<Rightarrow> buffers" where
  \<comment> \<open>a sequence of ticks delivered one after the other\<close>
  "onTrade_all ticks b = foldl (\<lambda>b (price, volume). onTrade price volume b) b ticks"

definition empty_buffers :: buffers where
  "empty_buffers = \<lparr>buf_prices = [], buf_volumes = []\<rparr>"

definition accepted_p0 :: "message \<Rightarrow> bool" where
  \<comment> \<open>the messages on which the handler of \<open>part_000\<close> reaches its two \<open>set\<close> calls:
      a trade message with a first record whose price is truthy\<close>
  "accepted_p0 m =
     (msg_type m = ''trade''
      \<and> (case msg_data m of Some (d # _) \<Rightarrow> truthy (trade_p d) | _ \<Rightarrow> False))"

definition tick_of :: "message \<Rightarrow> real option \<times> real" where
  \<comment> \<open>the price and the volume a handler records from a message: \<open>p\<close> and \<open>v || 1\<close> of
      the first record\<close>
  "tick_of m =
     (case msg_data m of
        Some (d # _) \<Rightarrow> (trade_p d, or_1 (trade_v d))
      | _ \<Rightarrow> (None, or_1 None))"

fun onmessage_p0_all :: "message list \<Rightarrow> buffers \<Rightarrow> buffers" where
  \<comment> \<open>a stream of messages handled one after the other by \<open>part_000\<close>; an exception
      thrown by the handler ends that call only and leaves the buffers as they were\<close>
  "onmessage_p0_all [] b = b"
| "onmessage_p0_all (m # ms) b =
     (case onmessage_p0 m b of
        Inl e \<Rightarrow> onmessage_p0_all ms b
      | Inr b' \<Rightarrow> onmessage_p0_all ms b')"

subsection \<open>Reconnection of \<open>useFinnhubWS\<close>\<close>

text \<open>
  The hook keeps \<open>retryCount\<close> and the pending timer \<open>timeoutRef\<close> in refs and \<open>mounted\<close>
  in the closure of the effect. Delays are in milliseconds. \<open>onclose\<close> schedules the timer;
  \<open>timer_fired\<close> is the callback given to \<open>setTimeout\<close>, which increments \<open>retryCount\<close> and
  calls \<open>connect\<close>; \<open>onopen\<close> resets the counter.
\<close>

record ws_state =
  retryCount :: nat
  timeoutRef :: "nat option"
  mounted :: bool

definition reconnect_delay :: "nat \<Rightarrow> nat" where
  \<comment> \<open>\<open>Math.min(30000, 1000 * 2 ** retryCount.current)\<close>\<close>
  "reconnect_delay rc = min 30000 (1000 * 2 ^ rc)"

definition onopen :: "ws_state \<Rightarrow> ws_state" where
  "onopen s = s\<lparr>retryCount := 0\<rparr>"

definition onclose :: "ws_state \<Rightarrow> ws_state" where
  "onclose s =
     (if \<not> mounted s then s
      else s\<lparr>timeoutRef := Some (reconnect_delay (retryCount s))\<rparr>)"

definition timer_fired :: "ws_state \<Rightarrow> ws_state" where
  "timer_fired s = s\<lparr>retryCount := retryCount s + 1\<rparr>"

fun failed_attempts :: "nat \<Rightarrow> ws_state \<Rightarrow> nat option list" where
  \<comment> \<open>\<open>n\<close> connections in a row that close without opening: the timer that each
      \<open>onclose\<close> leaves pending, before it fires\<close>
  "failed_attempts 0 s = []"
| "failed_attempts (Suc n) s =
     timeoutRef (onclose s) # failed_attempts n (timer_fired (onclose s))"

definition ws_init :: ws_state where
  "ws_init = \<lparr>retryCount = 0, timeoutRef = None, mounted = True\<rparr>"

subsection \<open>Auxiliary functions and example inputs\<close>

fun diffs :: "jsnum list \<Rightarrow> jsnum list" where
  \<comment> \<open>the differences of neighbouring elements\<close>
  "diffs (x # y # zs) = js_sub y x # diffs (y # zs)"
| "diffs _ = []"

fun ema_from :: "real \<Rightarrow> real \<Rightarrow> real list \<Rightarrow> real list" where
  \<comment> \<open>the exponential average continued from a previous value\<close>
  "ema_from k prev [] = []"
| "ema_from k prev (y # ys) =
     (y * k + prev * (1 - k)) # ema_from k (y * k + prev * (1 - k)) ys"

definition decline_prices :: "real list" where
  \<comment> \<open>27 prices: high, low, then flat at 100 with a last tick down to 99\<close>
  "decline_prices =
     [200, 200, 200, 200, 200, 200, 200, 50, 50, 50, 50, 50,
      100, 100, 100, 100, 100, 100, 100, 100, 100, 100, 100, 100, 100, 100, 99]"

definition decline_volumes :: "real list" where
  "decline_volumes =
     [1, 1, 1, 1, 1, 1, 1, 1000, 1000, 1000, 1000, 1000,
      1, 1, 1, 1, 1, 1, 1, 1, 1, 1, 1, 1, 1, 1, 1]"

definition rebound_prices :: "real list" where
  \<comment> \<open>28 prices on which a pass buys at index 26 and sells at index 27\<close>
  "rebound_prices =
     [200, 200, 200, 200, 200, 200, 200, 50, 50, 50, 50, 50,
      100, 100, 100, 100, 100, 100, 100, 100, 100, 100, 100, 100, 98, 99, 98, 101]"

definition rebound_volumes :: "real list" where
  "rebound_volumes =
     [1, 1, 1, 1, 1, 1, 1, 1000, 1000, 1000, 1000, 1000,
      1, 1, 1, 1, 1, 1, 1, 1, 1, 1, 1, 1, 1, 1, 1, 1]"

definition rebound_buy :: event where
  "rebound_buy = \<lparr>ev_time = 26, ev_type = BUY, ev_price = 98,
     ev_reason = Some [RSI_lt_30, VWAP_breakout, Golden_cross, MACD_up_cross],
     ev_profit = None\<rparr>"

definition rebound_sell :: event where
  "rebound_sell = \<lparr>ev_time = 27, ev_type = SELL, ev_price = 101,
     ev_reason = None, ev_profit = Some (248547 / 122500)\<rparr>"

definition log_inv :: "nat \<Rightarrow> sim_state \<Rightarrow> bool" where
  \<comment> \<open>the loop invariant on entry to iteration \<open>i\<close>: the log so far is a valid sequence
      that ends in the position the state records, and an open position was entered at
      an earlier index\<close>
  "log_inv i s =
     (run_log None (newLogs s) = Some (if holding s then Some (entryIdx s) else None)
      \<and> (holding s \<longrightarrow> entryIdx s < i))"

definition zero_volume_msg :: message where
  "zero_volume_msg =
     \<lparr>msg_type = ''trade'', msg_data = Some [\<lparr>trade_p = Some 100, trade_v = Some 0\<rparr>]\<rparr>"

definition lot_msg :: message where
  "lot_msg =
     \<lparr>msg_type = ''trade'', msg_data = Some [\<lparr>trade_p = Some 100, trade_v = Some 250\<rparr>]\<rparr>"

definition ticks150 :: "(real option \<times> real) list" where
  \<comment> \<open>150 ticks; tick number \<open>i\<close> has price \<open>i\<close> and volume \<open>i + 1\<close>\<close>
  "ticks150 = map (\<lambda>i. (Some (real i), real i + 1)) [0..<150]"

definition msgs150 :: "message list" where
  \<comment> \<open>150 trade messages; message number \<open>i\<close> has price \<open>i + 1\<close> and volume \<open>i + 2\<close>\<close>
  "msgs150 =
     map (\<lambda>i. \<lparr>msg_type = ''trade'',
                msg_data = Some [\<lparr>trade_p = Some (real i + 1), trade_v = Some (real i + 2)\<rparr>]\<rparr>)
       [0..<150]"





section \<open>Properties\<close>

lemmas params_defs =
  RSI_PERIOD_def SMA_SHORT_PERIOD_def SMA_LONG_PERIOD_def MACD_FAST_def MACD_SLOW_def
  MACD_SIGNAL_def RSI_BUY_THRESHOLD_def VWAP_CONDITION_def TAKE_PROFIT_PCT_def
  STOP_LOSS_PCT_def CAPITAL_GAIN_TAX_RATE_def BROKER_COMMISSION_RATE_def MAX_HOLD_TIME_def

subsection \<open>Net profit\<close>

lemma net_profit_unfold:
  "calculate_net_profit entryPrice exitPrice =
     (if (exitPrice - entryPrice) / entryPrice - 0.0046 > 0
      then ((exitPrice - entryPrice) / entryPrice - 0.0046) * 0.78 * 100
      else ((exitPrice - entryPrice) / entryPrice - 0.0046) * 100)"
  by (simp add: calculate_net_profit_def Let_def params_defs)

text \<open>
  C2 (as stated, refuted): with entry price 100 and exit price 100.7 the result is not 0.195.
  The gross return is 0.007, the round-trip commission 0.0046 leaves 0.0024 (not 0.0025),
  and 0.0024 * 0.78 * 100 = 0.1872.
\<close>

theorem C2_example_counterexample:
  "calculate_net_profit 100 100.7 \<noteq> 0.195"
  by (simp add: net_profit_unfold)

text \<open>
  C2 (amended): for every entry price above 0 and every exit price the result is
  computed in the stated order: gross is the price difference divided by the entry
  price, then the commission 0.0023 * 2 is subtracted, then the remainder is multiplied
  by 1 - 0.22 only when it is positive at that point, then the result is multiplied by
  100. At entry price 100 and exit price 100.7 this gives 0.1872 in exact arithmetic.
\<close>

theorem C2_net_profit_order:
  assumes "entryPrice > 0"
  shows "calculate_net_profit entryPrice exitPrice =
           (if (exitPrice - entryPrice) / entryPrice - 0.0023 * 2 > 0
            then ((exitPrice - entryPrice) / entryPrice - 0.0023 * 2) * (1 - 0.22) * 100
            else ((exitPrice - entryPrice) / entryPrice - 0.0023 * 2) * 100)
         \<and> calculate_net_profit 100 100.7 = 0.1872"
  by (simp add: calculate_net_profit_def Let_def params_defs)

theorem C2_net_profit_order_witness:
  "(0::real) < 100
   \<and> (100.7 - 100) / 100 - 0.0023 * 2 = (0.0024::real)
   \<and> calculate_net_profit 100 100.7 = 0.0024 * (1 - 0.22) * 100
   \<and> calculate_net_profit 100 100.7 = 0.1872"
  using C2_net_profit_order [of 100 "100.7"] by simp

text \<open>
  C9: for a fixed entry price above 0, the net profit is monotonically increasing in the
  exit price: a lower or equal exit price never gives a higher net profit.
\<close>

theorem C9_net_profit_mono:
  assumes "entryPrice > 0" and "exitPrice1 \<le> exitPrice2"
  shows "calculate_net_profit entryPrice exitPrice1 \<le> calculate_net_profit entryPrice exitPrice2"
proof -
  define a where "a = (exitPrice1 - entryPrice) / entryPrice - 0.0046"
  define b where "b = (exitPrice2 - entryPrice) / entryPrice - 0.0046"
  have ab: "a \<le> b"
    using assms by (simp add: a_def b_def divide_right_mono)
  have "(if a > 0 then a * 0.78 * 100 else a * 100) \<le> (if b > 0 then b * 0.78 * 100 else b * 100)"
    using ab by auto
  then show ?thesis
    by (simp only: net_profit_unfold a_def b_def)
qed

theorem C9_net_profit_mono_witness:
  "(100::real) > 0 \<and> (99.4::real) \<le> 100.7
   \<and> calculate_net_profit 100 99.4 \<le> calculate_net_profit 100 100.7"
  using C9_net_profit_mono [of 100 "99.4" "100.7"] by simp

subsection \<open>The indicators in closed form\<close>

lemma foldl_add_sum: "foldl (\<lambda>a b. a + b) (a::real) xs = a + sum_list xs"
  by (induction xs arbitrary: a) simp_all

lemma reduce_sum_sum_list: "reduce_sum xs = sum_list xs"
  by (simp add: reduce_sum_def foldl_add_sum)

lemma length_diffs: "length (diffs xs) = length xs - 1"
  by (induction xs rule: diffs.induct) simp_all

lemma nth_diffs: "Suc i < length xs \<Longrightarrow> diffs xs ! i = js_sub (xs ! Suc i) (xs ! i)"
proof (induction xs arbitrary: i rule: diffs.induct)
  case (1 x y zs)
  then show ?case by (cases i) simp_all
qed simp_all

lemma rsi_deltas_Cons: "rsi_deltas (x # xs) = Fin 0 # diffs (x # xs)"
proof (rule nth_equalityI)
  show "length (rsi_deltas (x # xs)) = length (Fin 0 # diffs (x # xs))"
    by (simp add: rsi_deltas_def length_diffs)
next
  fix i assume "i < length (rsi_deltas (x # xs))"
  then have i: "i < Suc (length xs)" by (simp add: rsi_deltas_def)
  show "rsi_deltas (x # xs) ! i = (Fin 0 # diffs (x # xs)) ! i"
  proof (cases i)
    case 0
    then show ?thesis unfolding rsi_deltas_def using i by (simp add: nth_map_upt del: upt_Suc)
  next
    case (Suc j)
    with i have "Suc j < length (x # xs)" by simp
    from nth_diffs [OF this] Suc i show ?thesis
      unfolding rsi_deltas_def by (simp del: upt_Suc)
  qed
qed

lemma length_ema_from: "length (ema_from k prev ys) = length ys"
  by (induction ys arbitrary: prev) simp_all

lemma ema_fold_from:
  "acc \<noteq> [] \<Longrightarrow>
   foldl (ema_push k) acc (zip ys [length acc..<length acc + length ys])
     = acc @ ema_from k (last acc) ys"
proof (induction ys arbitrary: acc)
  case Nil
  then show ?case by simp
next
  case (Cons y ys)
  let ?e = "y * k + last acc * (1 - k)"
  have up: "[length acc..<length acc + length (y # ys)]
              = length acc # [length (acc @ [?e])..<length (acc @ [?e]) + length ys]"
    using upt_conv_Cons [of "length acc" "length acc + length (y # ys)"]
    by (simp del: upt_Suc)
  have push: "ema_push k acc (y, length acc) = acc @ [?e]"
    using Cons.prems by (simp add: ema_push_def last_conv_nth)
  have "foldl (ema_push k) acc (zip (y # ys) [length acc..<length acc + length (y # ys)])
          = foldl (ema_push k) (acc @ [?e])
              (zip ys [length (acc @ [?e])..<length (acc @ [?e]) + length ys])"
    unfolding up by (simp only: zip_Cons_Cons foldl_Cons push)
  also have "\<dots> = (acc @ [?e]) @ ema_from k (last (acc @ [?e])) ys"
    by (rule Cons.IH) simp
  finally show ?case by simp
qed

lemma ema_Nil: "ema [] n = []"
  by (simp add: ema_def)

lemma ema_Cons: "ema (x # xs) n = x # ema_from (2 / (real n + 1)) x xs"
proof -
  have "foldl (ema_push k) [] (zip (x # xs) [0..<length (x # xs)])
          = foldl (ema_push k) [x] (zip xs [length [x]..<length [x] + length xs])" for k
    by (simp add: upt_conv_Cons ema_push_def del: upt_Suc)
  then show ?thesis
    using ema_fold_from [of "[x]" _ xs] by (simp add: ema_def Let_def)
qed

lemma length_ema: "length (ema arr n) = length arr"
  by (cases arr) (simp_all add: ema_Nil ema_Cons length_ema_from)

lemma macd_line_zip:
  "length fast = length slow \<Longrightarrow>
   map (\<lambda>(v, i). v - slow ! i) (zip fast [0..<length fast])
     = map (\<lambda>(a, b). a - b) (zip fast (slow :: real list))"
  by (rule nth_equalityI) simp_all

lemma calculate_macd_eval:
  "calculate_macd data =
     (if length data < 26 then (None, None)
      else (at_last (map (\<lambda>(a, b). a - b) (zip (ema data 12) (ema data 26))),
            at_last (ema (drop 25 (map (\<lambda>(a, b). a - b) (zip (ema data 12) (ema data 26)))) 9)))"
proof -
  have "map (\<lambda>(v, i). v - ema data 26 ! i) (zip (ema data 12) [0..<length (ema data 12)])
          = map (\<lambda>(a, b). a - b) (zip (ema data 12) (ema data 26))"
    by (rule macd_line_zip) (simp add: length_ema)
  then show ?thesis
    by (simp add: calculate_macd_def Let_def params_defs slice_from_def)
qed

lemma vwap_loop_take:
  "n \<le> length p \<Longrightarrow> n \<le> length v \<Longrightarrow>
   foldl (\<lambda>(cumPV, cumV) i. (cumPV + p ! i * v ! i, cumV + v ! i)) (0, 0) [0..<n]
     = (sum_list (map (\<lambda>(a, b). a * b) (zip (take n p) (take n v))), sum_list (take n v))"
proof (induction n)
  case 0
  then show ?case by simp
next
  case (Suc n)
  then show ?case
    by (simp add: take_Suc_conv_app_nth)
qed

lemma vwap_loop_sums:
  "length v = length p \<Longrightarrow>
   vwap_loop p v = (sum_list (map (\<lambda>(a, b). a * b) (zip p v)), sum_list v)"
  using vwap_loop_take [of "length p" p v] by (simp add: vwap_loop_def)

subsection \<open>RSI\<close>

lemma overflow_threshold_large: "2 ^ 1010 < overflow_threshold"
  by (simp add: overflow_threshold_def)

lemma underflow_threshold_small: "0 < underflow_threshold" "underflow_threshold < 1 / 10 ^ 9"
  by (simp_all add: underflow_threshold_def)


lemma js_round_0: "js_round 0 = Fin 0"
  using overflow_threshold_large underflow_threshold_small(1) by (simp add: js_round_def)

lemma js_round_Fin:
  assumes "1 / 10 ^ 9 \<le> \<bar>x\<bar>" and "\<bar>x\<bar> \<le> 10 ^ 9"
  shows "js_round x = Fin x"
proof -
  have "(10::real) ^ 9 \<le> 2 ^ 1010" by simp
  with overflow_threshold_large have "10 ^ 9 < overflow_threshold" by linarith
  with assms underflow_threshold_small show ?thesis
    by (auto simp: js_round_def)
qed





subsection \<open>RSI\<close>




















subsection \<open>Absent results\<close>

lemma macd_some:
  assumes "\<not> length data < 26"
  shows "fst (calculate_macd data) \<noteq> None" and "snd (calculate_macd data) \<noteq> None"
proof -
  let ?line = "map (\<lambda>(a, b). a - b) (zip (ema data 12) (ema data 26))"
  have len: "length ?line = length data" by (simp add: length_ema)
  with assms have "?line \<noteq> []" by (cases ?line) auto
  moreover have "length (ema (drop 25 ?line) 9) = length data - 25"
    by (simp add: length_ema)
  with assms have "ema (drop 25 ?line) 9 \<noteq> []" by (cases "ema (drop 25 ?line) 9") auto
  ultimately show "fst (calculate_macd data) \<noteq> None" and "snd (calculate_macd data) \<noteq> None"
    using assms by (simp_all add: calculate_macd_eval at_last_def)
qed

text \<open>
  C8: each indicator function returns an absent value exactly when history is
  insufficient, and a value otherwise (the functions have no error result at all):
  \<open>calculate_sma\<close> is absent iff the data is shorter than the period, \<open>calculate_rsi\<close>
  iff shorter than 15, each component of \<open>calculate_macd\<close> iff shorter than 26, and
  \<open>calculate_vwap\<close> iff there are fewer than 2 prices or the two lengths differ.
\<close>

theorem C8_absent_iff_insufficient:
  "(calculate_sma data period = None) = (length data < period)
   \<and> (calculate_rsi series = None) = (length series < 15)
   \<and> (fst (calculate_macd data) = None) = (length data < 26)
   \<and> (snd (calculate_macd data) = None) = (length data < 26)
   \<and> (calculate_vwap p v = None) = (length p < 2 \<or> length v \<noteq> length p)"
proof -
  have sma: "(calculate_sma data period = None) = (length data < period)"
    by (simp add: calculate_sma_def)
  have rsi: "(calculate_rsi series = None) = (length series < 15)"
    by (simp add: calculate_rsi_def Let_def RSI_PERIOD_def)
  have macd: "(fst (calculate_macd data) = None) = (length data < 26)"
    "(snd (calculate_macd data) = None) = (length data < 26)"
    using macd_some [of data] by (auto simp: calculate_macd_eval)
  have vwap: "(calculate_vwap p v = None) = (length p < 2 \<or> length v \<noteq> length p)"
    by (simp add: calculate_vwap_def split: prod.splits)
  from sma rsi macd vwap show ?thesis by simp
qed

subsection \<open>The replay loop\<close>

lemma sim_loop_foldl:
  "sim_loop prices volumes i s
     = foldl (\<lambda>s j. sim_step prices volumes j s) s [i..<length prices]"
proof (induction prices volumes i s rule: sim_loop.induct)
  case (1 prices volumes i s)
  show ?case
  proof (cases "i < length prices")
    case True
    then have "sim_loop prices volumes i s
                 = sim_loop prices volumes (i + 1) (sim_step prices volumes i s)"
      by (subst sim_loop.simps) simp
    also have "\<dots> = foldl (\<lambda>s j. sim_step prices volumes j s)
                       (sim_step prices volumes i s) [i + 1..<length prices]"
      using True by (rule "1.IH")
    also have "\<dots> = foldl (\<lambda>s j. sim_step prices volumes j s) s [i..<length prices]"
      using True by (simp add: upt_conv_Cons del: upt_Suc)
    finally show ?thesis .
  next
    case False
    then show ?thesis by (subst sim_loop.simps) simp
  qed
qed

lemma simulate_state_at:
  "simulate prices volumes = newLogs (state_at prices volumes (length prices))"
  by (simp add: simulate_def state_at_def sim_loop_foldl)

lemma state_at_0: "state_at prices volumes 0 = sim_init"
  by (simp add: state_at_def)

lemma state_at_Suc:
  "state_at prices volumes (Suc i) = sim_step prices volumes i (state_at prices volumes i)"
  by (simp add: state_at_def)

lemma run_log_append:
  "run_log pos (xs @ ys) = (case run_log pos xs of None \<Rightarrow> None | Some q \<Rightarrow> run_log q ys)"
  by (induction pos xs rule: run_log.induct) simp_all

lemma log_inv_init: "log_inv 0 sim_init"
  by (simp add: log_inv_def sim_init_def)

lemma log_inv_step:
  assumes "log_inv i s"
  shows "log_inv (Suc i) (sim_step prices volumes i s)"
proof (cases "holding s")
  case False
  with assms show ?thesis
    by (simp add: log_inv_def sim_step_def Let_def run_log_append)
next
  case True
  with assms have "run_log None (newLogs s) = Some (Some (entryIdx s))" "entryIdx s < i"
    by (simp_all add: log_inv_def)
  with True show ?thesis
    by (simp add: log_inv_def sim_step_def Let_def run_log_append)
qed

lemma log_inv_state_at: "log_inv i (state_at prices volumes i)"
  by (induction i) (simp_all add: state_at_0 state_at_Suc log_inv_init log_inv_step)

lemma holding_step:
  assumes "holding s"
  shows "newLogs (sim_step prices volumes i s) = newLogs s
         \<or> (\<exists>e. newLogs (sim_step prices volumes i s) = newLogs s @ [e]
                \<and> ev_type e = SELL \<and> ev_time e = i)"
  using assms by (auto simp: sim_step_def Let_def)

lemma signal_reasons_4:
  "(length (signal_reasons prices volumes i) = 4) =
     (cond_rsi (calculate_rsi (map Fin (slice_to (i + 1) prices)))
      \<and> cond_vwap (prices ! i)
            (calculate_vwap (slice_to (i + 1) prices) (slice_to (i + 1) volumes))
      \<and> cond_cross (calculate_sma (slice_to (i + 1) prices) SMA_SHORT_PERIOD)
            (calculate_sma (slice_to (i + 1) prices) SMA_LONG_PERIOD)
      \<and> cond_cross (fst (calculate_macd (slice_to (i + 1) prices)))
            (snd (calculate_macd (slice_to (i + 1) prices))))"
  by (simp add: signal_reasons_def Let_def)

lemma sim_step_flat:
  "\<not> holding s \<Longrightarrow> length (signal_reasons prices volumes i) \<noteq> 4
   \<Longrightarrow> sim_step prices volumes i s = s"
  by (simp add: sim_step_def Let_def)

lemma drop_all_but_last: "length xs = Suc n \<Longrightarrow> drop n xs = [last xs]"
proof (induction xs arbitrary: n)
  case Nil
  then show ?case by simp
next
  case (Cons x xs)
  then show ?case by (cases n) auto
qed

lemma macd_26:
  assumes "length data = 26"
  shows "fst (calculate_macd data) = snd (calculate_macd data)"
proof -
  let ?line = "map (\<lambda>(a, b). a - b) (zip (ema data 12) (ema data 26))"
  have "length ?line = Suc 25" using assms by (simp add: length_ema)
  then have "drop 25 ?line = [last ?line]" by (rule drop_all_but_last)
  moreover from \<open>length ?line = Suc 25\<close> have "?line \<noteq> []" by (cases ?line) auto
  ultimately show ?thesis
    using assms by (simp add: calculate_macd_eval at_last_def ema_Cons)
qed

lemma no_cross_early:
  assumes "i \<le> 25"
  shows "\<not> cond_cross (fst (calculate_macd (slice_to (i + 1) prices)))
                        (snd (calculate_macd (slice_to (i + 1) prices)))"
proof (cases "length (slice_to (i + 1) prices) < 26")
  case True
  then show ?thesis by (simp add: calculate_macd_eval cond_cross_def)
next
  case False
  with assms have "length (slice_to (i + 1) prices) = 26" by (simp add: slice_to_def)
  from macd_26 [OF this] show ?thesis
    by (auto simp: cond_cross_def split: option.splits)
qed

lemma state_at_early: "i \<le> 26 \<Longrightarrow> state_at prices volumes i = sim_init"
proof (induction i)
  case 0
  show ?case by (rule state_at_0)
next
  case (Suc i)
  then have st: "state_at prices volumes i = sim_init" and i: "i \<le> 25" by simp_all
  have "length (signal_reasons prices volumes i) \<noteq> 4"
    using no_cross_early [OF i] by (simp add: signal_reasons_4)
  then show ?case
    by (simp add: state_at_Suc st sim_step_flat sim_init_def)
qed

subsection \<open>Two replayed passes\<close>

lemmas eval_defs =
  calculate_rsi_def rsi_avgUp_def rsi_avgDown_def rsi_deltas_Cons calculate_sma_def
  calculate_vwap_def vwap_loop_sums calculate_macd_eval ema_Cons at_last_def
  reduce_sum_sum_list reduce_sum_js_def js_sub_def js_gt_def js_round_Fin js_round_0
  slice_last_def slice_to_def params_defs

lemma decline_rsi: "calculate_rsi (map Fin (slice_to 27 decline_prices)) = Some (Fin 0)"
  by (simp add: eval_defs decline_prices_def)

lemma decline_sma:
  "calculate_sma (slice_to 27 decline_prices) SMA_SHORT_PERIOD = Some 99.8"
  "calculate_sma (slice_to 27 decline_prices) SMA_LONG_PERIOD = Some 87.45"
  by (simp_all add: eval_defs decline_prices_def)

lemma decline_vwap:
  "calculate_vwap (slice_to 27 decline_prices) (slice_to 27 decline_volumes)
     = Some (Fin (252899 / 5022))"
  by (simp add: eval_defs decline_prices_def decline_volumes_def)

lemma decline_macd:
  "\<exists>m g. calculate_macd (slice_to 27 decline_prices) = (Some m, Some g) \<and> m > g"
  by (simp add: eval_defs decline_prices_def)

lemma decline_reasons: "length (signal_reasons decline_prices decline_volumes 26) \<noteq> 4"
  by (simp add: signal_reasons_4 decline_rsi cond_rsi_def js_truthy_def)

lemma decline_state_27: "state_at decline_prices decline_volumes 27 = sim_init"
proof -
  have "state_at decline_prices decline_volumes 27
          = sim_step decline_prices decline_volumes 26
              (state_at decline_prices decline_volumes 26)"
    using state_at_Suc [of decline_prices decline_volumes 26] by simp
  also have "state_at decline_prices decline_volumes 26 = sim_init"
    by (rule state_at_early) simp
  also have "sim_step decline_prices decline_volumes 26 sim_init = sim_init"
    using decline_reasons by (simp add: sim_step_flat sim_init_def)
  finally show ?thesis .
qed

lemma decline_log: "simulate decline_prices decline_volumes = []"
proof -
  have len: "length decline_prices = 27" by (simp add: decline_prices_def)
  show ?thesis
    unfolding simulate_state_at len decline_state_27 by (simp add: sim_init_def)
qed

lemma rebound_conds:
  "cond_rsi (calculate_rsi (map Fin (slice_to 27 rebound_prices)))"
  "cond_vwap (rebound_prices ! 26)
     (calculate_vwap (slice_to 27 rebound_prices) (slice_to 27 rebound_volumes))"
  "cond_cross (calculate_sma (slice_to 27 rebound_prices) SMA_SHORT_PERIOD)
     (calculate_sma (slice_to 27 rebound_prices) SMA_LONG_PERIOD)"
  "cond_cross (fst (calculate_macd (slice_to 27 rebound_prices)))
     (snd (calculate_macd (slice_to 27 rebound_prices)))"
proof -
  show "cond_rsi (calculate_rsi (map Fin (slice_to 27 rebound_prices)))"
    by (simp add: eval_defs rebound_prices_def cond_rsi_def js_truthy_def)
  show "cond_vwap (rebound_prices ! 26)
     (calculate_vwap (slice_to 27 rebound_prices) (slice_to 27 rebound_volumes))"
    by (simp add: eval_defs rebound_prices_def rebound_volumes_def cond_vwap_def js_truthy_def)
  show "cond_cross (calculate_sma (slice_to 27 rebound_prices) SMA_SHORT_PERIOD)
     (calculate_sma (slice_to 27 rebound_prices) SMA_LONG_PERIOD)"
    by (simp add: eval_defs rebound_prices_def cond_cross_def)
  show "cond_cross (fst (calculate_macd (slice_to 27 rebound_prices)))
     (snd (calculate_macd (slice_to 27 rebound_prices)))"
    by (simp add: eval_defs rebound_prices_def cond_cross_def)
qed

lemma rebound_reasons:
  "signal_reasons rebound_prices rebound_volumes 26
     = [RSI_lt_30, VWAP_breakout, Golden_cross, MACD_up_cross]"
  by (simp add: signal_reasons_def Let_def rebound_conds)

lemma rebound_state_27:
  "state_at rebound_prices rebound_volumes 27
     = \<lparr>holding = True, entry = 98, entryIdx = 26, newLogs = [rebound_buy]\<rparr>"
proof -
  have "state_at rebound_prices rebound_volumes 27
          = sim_step rebound_prices rebound_volumes 26
              (state_at rebound_prices rebound_volumes 26)"
    using state_at_Suc [of rebound_prices rebound_volumes 26] by simp
  also have "state_at rebound_prices rebound_volumes 26 = sim_init"
    by (rule state_at_early) simp
  also have "sim_step rebound_prices rebound_volumes 26 sim_init
               = \<lparr>holding = True, entry = 98, entryIdx = 26, newLogs = [rebound_buy]\<rparr>"
  proof -
    have "rebound_prices ! 26 = 98" by (simp add: rebound_prices_def)
    then show ?thesis
      by (simp add: sim_step_def Let_def rebound_reasons sim_init_def rebound_buy_def)
  qed
  finally show ?thesis .
qed

lemma rebound_step_27:
  "sim_step rebound_prices rebound_volumes 27
      \<lparr>holding = True, entry = 98, entryIdx = 26, newLogs = [rebound_buy]\<rparr>
     = \<lparr>holding = False, entry = 98, entryIdx = 26, newLogs = [rebound_buy, rebound_sell]\<rparr>"
proof -
  have "rebound_prices ! 27 = 101" by (simp add: rebound_prices_def)
  moreover have "calculate_net_profit 98 101 = 248547 / 122500"
    by (simp add: net_profit_unfold)
  ultimately show ?thesis
    by (simp add: sim_step_def Let_def rebound_sell_def params_defs)
qed

lemma rebound_log: "simulate rebound_prices rebound_volumes = [rebound_buy, rebound_sell]"
proof -
  have len: "length rebound_prices = 28" by (simp add: rebound_prices_def)
  have "state_at rebound_prices rebound_volumes 28
          = sim_step rebound_prices rebound_volumes 27
              (state_at rebound_prices rebound_volumes 27)"
    using state_at_Suc [of rebound_prices rebound_volumes 27] by simp
  then show ?thesis
    unfolding simulate_state_at len by (simp add: rebound_state_27 rebound_step_27)
qed

subsection \<open>The two variants agree\<close>

lemma rsi_p0_eq: "calculate_rsi_p0 series = calculate_rsi series"
  by (simp add: calculate_rsi_p0_def calculate_rsi_def rsi_avgUp_def rsi_avgDown_def
      rsi_deltas_def Let_def)

lemma sma_p0_eq: "calculate_sma_p0 data period = calculate_sma data period"
  by (simp add: calculate_sma_p0_def calculate_sma_def)

lemma ema_push_fun:
  "(\<lambda>acc (cur, i). if i = 0 then acc @ [cur] else acc @ [cur * k + acc ! (i - 1) * (1 - k)])
     = ema_push k"
  by (intro ext) (simp add: ema_push_def split: prod.splits)

lemma ema_p0_eq: "ema_p0 arr n = ema arr n"
  by (simp add: ema_p0_def ema_def Let_def ema_push_fun)

lemma macd_p0_eq: "calculate_macd_p0 data = calculate_macd data"
  by (simp add: calculate_macd_p0_def calculate_macd_def ema_p0_eq)

lemma vwap_p0_eq: "calculate_vwap_p0 p v = calculate_vwap p v"
  by (simp add: calculate_vwap_p0_def calculate_vwap_def vwap_loop_def)

lemma net_profit_p0_eq: "calculate_net_profit_p0 a b = calculate_net_profit a b"
  by (simp add: calculate_net_profit_p0_def calculate_net_profit_def)

lemma signal_reasons_p0_eq:
  "signal_reasons_p0 prices volumes i = signal_reasons prices volumes i"
  by (simp add: signal_reasons_p0_def signal_reasons_def rsi_p0_eq sma_p0_eq macd_p0_eq
      vwap_p0_eq cond_rsi_def cond_vwap_def cond_cross_def Let_def)

lemma sim_step_p0_eq: "sim_step_p0 prices volumes i s = sim_step prices volumes i s"
  by (simp add: sim_step_p0_def sim_step_def signal_reasons_p0_eq net_profit_p0_eq Let_def)

lemma sim_loop_p0_eq: "sim_loop_p0 prices volumes i s = sim_loop prices volumes i s"
proof (induction prices volumes i s rule: sim_loop.induct)
  case (1 prices volumes i s)
  show ?case
  proof (cases "i < length prices")
    case True
    then have "sim_loop_p0 prices volumes i s
                 = sim_loop_p0 prices volumes (i + 1) (sim_step_p0 prices volumes i s)"
      by (subst sim_loop_p0.simps) simp
    also have "\<dots> = sim_loop prices volumes (i + 1) (sim_step prices volumes i s)"
      using "1.IH" [OF True] by (simp add: sim_step_p0_eq)
    also have "\<dots> = sim_loop prices volumes i s"
      using True by (subst (2) sim_loop.simps) simp
    finally show ?thesis .
  next
    case False
    then show ?thesis
      by (subst sim_loop_p0.simps, subst sim_loop.simps) simp
  qed
qed

text \<open>
  C10: the two variants are equivalent: on every pair of price and volume buffers their
  \<open>simulate\<close> routines produce the same event log (the same events with the same fields
  in the same order), and each of the four indicator functions returns the same result
  on every input.
\<close>

theorem C10_variants_agree:
  "simulate_p0 prices volumes = simulate prices volumes
   \<and> calculate_rsi_p0 series = calculate_rsi series
   \<and> calculate_sma_p0 data period = calculate_sma data period
   \<and> calculate_macd_p0 data = calculate_macd data
   \<and> calculate_vwap_p0 p v = calculate_vwap p v"
  by (simp add: simulate_p0_def simulate_def sim_loop_p0_eq rsi_p0_eq sma_p0_eq macd_p0_eq
      vwap_p0_eq)

subsection \<open>When a pass buys\<close>

lemma buy_in_step:
  "list_ex (\<lambda>e. ev_type e = BUY \<and> ev_time e = t) (newLogs (sim_step prices volumes i s))
     = (list_ex (\<lambda>e. ev_type e = BUY \<and> ev_time e = t) (newLogs s)
        \<or> (t = i \<and> \<not> holding s \<and> length (signal_reasons prices volumes i) = 4))"
  by (auto simp: sim_step_def Let_def)

lemma buy_in_state_at:
  "list_ex (\<lambda>e. ev_type e = BUY \<and> ev_time e = t) (newLogs (state_at prices volumes n))
     = (t < n \<and> \<not> holding (state_at prices volumes t)
        \<and> length (signal_reasons prices volumes t) = 4)"
proof (induction n)
  case 0
  show ?case by (simp add: state_at_0 sim_init_def)
next
  case (Suc n)
  show ?case
    unfolding state_at_Suc buy_in_step Suc.IH by (auto simp: less_Suc_eq)
qed

text \<open>
  What the loop does: a pass logs a BUY at index \<open>i\<close> exactly when the position is flat
  on entry to iteration \<open>i\<close> and all four conditions of the source hold there, each of
  which asks for an indicator that is truthy: neither absent nor zero (nor \<open>NaN\<close>).
\<close>

lemma buy_at_iff:
  "buy_at prices volumes i =
     (i < length prices \<and> \<not> holding (state_at prices volumes i)
      \<and> cond_rsi (calculate_rsi (map Fin (slice_to (i + 1) prices)))
      \<and> cond_vwap (prices ! i)
            (calculate_vwap (slice_to (i + 1) prices) (slice_to (i + 1) volumes))
      \<and> cond_cross (calculate_sma (slice_to (i + 1) prices) SMA_SHORT_PERIOD)
            (calculate_sma (slice_to (i + 1) prices) SMA_LONG_PERIOD)
      \<and> cond_cross (fst (calculate_macd (slice_to (i + 1) prices)))
            (snd (calculate_macd (slice_to (i + 1) prices))))"
  by (simp add: buy_at_def simulate_state_at buy_in_state_at signal_reasons_4)

text \<open>
  C1 (the code at a failing input): on the 27 prices of \<open>decline_prices\<close> the position is
  flat on entry to index 26, and at index 26 all four indicators are present and satisfy
  the four conditions of the claim: the RSI is 0, which is below 30, the price 99 is above
  the VWAP, the short average 99.8 is above the long average 87.45, and the MACD value is
  above its signal value. Yet the pass logs no BUY at index 26, in either variant: an RSI
  of exactly 0 is falsy, so \<open>rsi && rsi < 30\<close> does not hold.
\<close>

theorem C1_zero_rsi_no_buy:
  "\<not> holding (state_at decline_prices decline_volumes 26)
   \<and> calculate_rsi (map Fin (slice_to 27 decline_prices)) = Some (Fin 0)
   \<and> (0::real) < RSI_BUY_THRESHOLD
   \<and> calculate_vwap (slice_to 27 decline_prices) (slice_to 27 decline_volumes)
        = Some (Fin (252899 / 5022))
   \<and> decline_prices ! 26 > 252899 / 5022
   \<and> calculate_sma (slice_to 27 decline_prices) SMA_SHORT_PERIOD = Some 99.8
   \<and> calculate_sma (slice_to 27 decline_prices) SMA_LONG_PERIOD = Some 87.45
   \<and> (99.8::real) > 87.45
   \<and> (\<exists>m g. calculate_macd (slice_to 27 decline_prices) = (Some m, Some g) \<and> m > g)
   \<and> \<not> buy_at decline_prices decline_volumes 26
   \<and> simulate_p0 decline_prices decline_volumes = []"
proof -
  have flat: "\<not> holding (state_at decline_prices decline_volumes 26)"
    by (simp add: state_at_early sim_init_def)
  have thr: "(0::real) < RSI_BUY_THRESHOLD"
    by (simp add: RSI_BUY_THRESHOLD_def)
  have price: "decline_prices ! 26 > 252899 / 5022"
    by (simp add: decline_prices_def)
  have avg: "(99.8::real) > 87.45"
    by simp
  have none: "\<not> buy_at decline_prices decline_volumes 26"
    by (simp add: buy_at_def decline_log)
  have p0: "simulate_p0 decline_prices decline_volumes = []"
    by (simp add: simulate_p0_def sim_loop_p0_eq decline_log [unfolded simulate_def])
  from flat decline_rsi thr decline_vwap price decline_sma avg decline_macd none p0
  show ?thesis by blast
qed

subsection \<open>One position at a time\<close>

text \<open>
  C3: in every pass over any price and volume buffers, the log is a valid sequence in
  the sense of \<open>run_log\<close>: it starts flat, a BUY occurs only while flat and a SELL only
  while a position is open, so at most one position is open at any index, and each SELL
  has a time index strictly greater than that of the BUY that opened its position.
  Moreover an iteration that starts while holding logs nothing or exactly one SELL at its
  own index, never a BUY.
\<close>

theorem C3_one_position:
  "(\<exists>pos. run_log None (simulate prices volumes) = Some pos)
   \<and> (holding s \<longrightarrow>
        newLogs (sim_step prices volumes i s) = newLogs s
        \<or> (\<exists>e. newLogs (sim_step prices volumes i s) = newLogs s @ [e]
               \<and> ev_type e = SELL \<and> ev_time e = i))"
proof -
  have "log_inv (length prices) (state_at prices volumes (length prices))"
    by (rule log_inv_state_at)
  then have "\<exists>pos. run_log None (simulate prices volumes) = Some pos"
    by (simp add: log_inv_def simulate_state_at)
  then show ?thesis
    using holding_step [of s prices volumes i] by blast
qed

theorem C3_one_position_witness:
  "holding (state_at rebound_prices rebound_volumes 27)
   \<and> simulate rebound_prices rebound_volumes = [rebound_buy, rebound_sell]
   \<and> run_log None [rebound_buy, rebound_sell] = Some None
   \<and> newLogs (sim_step rebound_prices rebound_volumes 27
                 (state_at rebound_prices rebound_volumes 27))
       = newLogs (state_at rebound_prices rebound_volumes 27) @ [rebound_sell]
   \<and> ev_type rebound_sell = SELL \<and> ev_time rebound_sell = 27"
proof -
  have h: "holding (state_at rebound_prices rebound_volumes 27)"
    by (simp add: rebound_state_27)
  have step: "newLogs (sim_step rebound_prices rebound_volumes 27
                 (state_at rebound_prices rebound_volumes 27))
       = newLogs (state_at rebound_prices rebound_volumes 27) @ [rebound_sell]"
    by (simp add: rebound_state_27 rebound_step_27)
  have run: "run_log None [rebound_buy, rebound_sell] = Some None"
    by (simp add: rebound_buy_def rebound_sell_def)
  have sell: "ev_type rebound_sell = SELL" "ev_time rebound_sell = 27"
    by (simp_all add: rebound_sell_def)
  show ?thesis
    using C3_one_position [of rebound_prices rebound_volumes
        "state_at rebound_prices rebound_volumes 27" 27]
      h step run sell rebound_log
    by blast
qed

subsection \<open>Recorded volume\<close>

lemma or_1_nonzero: "or_1 volume \<noteq> 0"
  by (simp add: or_1_def split: option.splits)

lemma last_push_capped: "last (push_capped prev x) = x"
  by (simp add: push_capped_def)

text \<open>
  C5 (as stated, refuted): a trade message whose record carries the volume -5 is accepted
  by both handlers, and the volume recorded is -5, which is not strictly positive.
\<close>

theorem C5_negative_volume_counterexample:
  "onmessage \<lparr>msg_type = ''trade'',
              msg_data = Some [\<lparr>trade_p = Some 100, trade_v = Some (- 5)\<rparr>]\<rparr> empty_buffers
     = Inr \<lparr>buf_prices = [Some 100], buf_volumes = [- 5]\<rparr>
   \<and> onmessage_p0 \<lparr>msg_type = ''trade'',
              msg_data = Some [\<lparr>trade_p = Some 100, trade_v = Some (- 5)\<rparr>]\<rparr> empty_buffers
     = Inr \<lparr>buf_prices = [Some 100], buf_volumes = [- 5]\<rparr>
   \<and> \<not> 0 < last (buf_volumes \<lparr>buf_prices = [Some 100], buf_volumes = [- 5]\<rparr>)"
  by (simp add: onmessage_def onmessage_p0_def onTrade_def push_capped_def slice_last_def
      or_1_def empty_buffers_def truthy_def)

text \<open>
  C5 (amended): for every inbound trade message accepted by a handler (type \<open>trade\<close>, a
  non-empty data array and, in \<open>part_000\<close>, a truthy price), the volume recorded into the
  buffer is \<open>volume || 1\<close> of the first record: it is never zero, an omitted or zero source
  volume is recorded as 1, and any other source volume is recorded unchanged, so the
  recorded volume is strictly positive whenever the source volume is omitted, zero or
  positive.
\<close>

theorem C5_recorded_volume:
  assumes "msg_type m = ''trade''" and "msg_data m = Some (d # ds)"
  shows "(\<exists>b'. onmessage m b = Inr b' \<and> last (buf_volumes b') = or_1 (trade_v d))
         \<and> (truthy (trade_p d) \<longrightarrow>
              (\<exists>b'. onmessage_p0 m b = Inr b' \<and> last (buf_volumes b') = or_1 (trade_v d)))
         \<and> or_1 (trade_v d) \<noteq> 0
         \<and> (trade_v d = None \<or> trade_v d = Some 0 \<longrightarrow> or_1 (trade_v d) = 1)
         \<and> (\<forall>x. trade_v d = Some x \<and> x \<noteq> 0 \<longrightarrow> or_1 (trade_v d) = x)
         \<and> (\<forall>x. trade_v d = Some x \<and> 0 \<le> x \<longrightarrow> 0 < or_1 (trade_v d))"
proof -
  have tsx: "\<exists>b'. onmessage m b = Inr b' \<and> last (buf_volumes b') = or_1 (trade_v d)"
    using assms by (simp add: onmessage_def onTrade_def last_push_capped)
  have p0: "truthy (trade_p d) \<longrightarrow>
              (\<exists>b'. onmessage_p0 m b = Inr b' \<and> last (buf_volumes b') = or_1 (trade_v d))"
    using assms by (simp add: onmessage_p0_def Let_def last_push_capped)
  have vals: "(trade_v d = None \<or> trade_v d = Some 0 \<longrightarrow> or_1 (trade_v d) = 1)"
    "(\<forall>x. trade_v d = Some x \<and> x \<noteq> 0 \<longrightarrow> or_1 (trade_v d) = x)"
    "(\<forall>x. trade_v d = Some x \<and> 0 \<le> x \<longrightarrow> 0 < or_1 (trade_v d))"
    by (auto simp: or_1_def)
  from tsx p0 or_1_nonzero vals show ?thesis by blast
qed

theorem C5_recorded_volume_witness:
  "msg_type zero_volume_msg = ''trade''
   \<and> msg_data zero_volume_msg = Some [\<lparr>trade_p = Some 100, trade_v = Some 0\<rparr>]
   \<and> truthy (Some 100)
   \<and> onmessage zero_volume_msg empty_buffers
       = Inr \<lparr>buf_prices = [Some 100], buf_volumes = [1]\<rparr>
   \<and> onmessage_p0 zero_volume_msg empty_buffers
       = Inr \<lparr>buf_prices = [Some 100], buf_volumes = [1]\<rparr>
   \<and> or_1 (Some 0) = 1
   \<and> msg_type lot_msg = ''trade''
   \<and> msg_data lot_msg = Some [\<lparr>trade_p = Some 100, trade_v = Some 250\<rparr>]
   \<and> or_1 (Some 250) = 250 \<and> 0 < or_1 (Some 250)"
proof -
  have z: "msg_type zero_volume_msg = ''trade''"
    "msg_data zero_volume_msg = Some [\<lparr>trade_p = Some 100, trade_v = Some 0\<rparr>]"
    by (simp_all add: zero_volume_msg_def)
  have l: "msg_type lot_msg = ''trade''"
    "msg_data lot_msg = Some [\<lparr>trade_p = Some 100, trade_v = Some 250\<rparr>]"
    by (simp_all add: lot_msg_def)
  have run: "onmessage zero_volume_msg empty_buffers
       = Inr \<lparr>buf_prices = [Some 100], buf_volumes = [1]\<rparr>"
    "onmessage_p0 zero_volume_msg empty_buffers
       = Inr \<lparr>buf_prices = [Some 100], buf_volumes = [1]\<rparr>"
    by (simp_all add: zero_volume_msg_def onmessage_def onmessage_p0_def onTrade_def
        push_capped_def slice_last_def or_1_def empty_buffers_def truthy_def)
  have t: "truthy (Some 100)" by (simp add: truthy_def)
  show ?thesis
    using C5_recorded_volume [OF z, of empty_buffers] C5_recorded_volume [OF l, of empty_buffers]
      z l run t
    by simp
qed

subsection \<open>The capped buffers\<close>

lemma length_push_capped: "length (push_capped prev x) \<le> 100"
  by (simp add: push_capped_def slice_last_def)

lemma push_capped_full: "length prev = 100 \<Longrightarrow> push_capped prev x = tl prev @ [x]"
  by (simp add: push_capped_def slice_last_def drop_Suc)

lemma foldl_push_capped:
  "foldl push_capped [] xs = drop (length xs - 100) xs"
proof (induction xs rule: rev_induct)
  case Nil
  show ?case by simp
next
  case (snoc x xs)
  have "length xs - (length xs - 100) - 99 + (length xs - 100) = length xs - 99" by arith
  with snoc show ?case
    by (simp add: push_capped_def slice_last_def)
qed

lemma onTrade_all_buffers:
  "buf_prices (onTrade_all ticks empty_buffers) = foldl push_capped [] (map fst ticks)
   \<and> buf_volumes (onTrade_all ticks empty_buffers) = foldl push_capped [] (map snd ticks)"
  by (induction ticks rule: rev_induct)
     (simp_all add: onTrade_all_def onTrade_def empty_buffers_def split: prod.splits)

lemma onTrade_all_drop:
  "buf_prices (onTrade_all ticks empty_buffers) = map fst (drop (length ticks - 100) ticks)"
  "buf_volumes (onTrade_all ticks empty_buffers) = map snd (drop (length ticks - 100) ticks)"
  by (simp_all add: onTrade_all_buffers foldl_push_capped drop_map)

lemma onmessage_p0_accepted:
  assumes "accepted_p0 m"
  shows "onmessage_p0 m b = Inr (onTrade (fst (tick_of m)) (snd (tick_of m)) b)"
  using assms
  by (auto simp: accepted_p0_def onmessage_p0_def tick_of_def onTrade_def Let_def
      split: option.splits list.splits)

lemma onmessage_p0_not_accepted:
  assumes "\<not> accepted_p0 m"
  shows "onmessage_p0 m b = Inr b \<or> onmessage_p0 m b = Inl TypeError"
  using assms
  by (auto simp: accepted_p0_def onmessage_p0_def Let_def truthy_def
      split: option.splits list.splits)

lemma onTrade_all_Cons:
  "onTrade_all (t # ts) b = onTrade_all ts (onTrade (fst t) (snd t) b)"
  by (simp add: onTrade_all_def split: prod.splits)

lemma onmessage_p0_all_ticks:
  "onmessage_p0_all ms b = onTrade_all (map tick_of (filter accepted_p0 ms)) b"
proof (induction ms arbitrary: b)
  case Nil
  show ?case by (simp add: onTrade_all_def)
next
  case (Cons m ms)
  show ?case
  proof (cases "accepted_p0 m")
    case True
    then show ?thesis
      by (simp add: onmessage_p0_accepted Cons.IH onTrade_all_Cons)
  next
    case False
    from onmessage_p0_not_accepted [OF False, of b] show ?thesis
      using False by (auto simp: Cons.IH)
  qed
qed

lemma filter_all: "list_all P xs \<Longrightarrow> filter P xs = xs"
  by (induction xs) simp_all

text \<open>
  C6: after any tick the price and volume buffers hold at most 100 elements each;
  appending to a buffer of 100 elements drops its oldest element and keeps the others in
  order, and appending to a shorter buffer keeps all of them. In \<open>TradeSimWeb.tsx\<close> a
  trade message with a non-empty data array appends its first record through \<open>onTrade\<close>;
  in \<open>part_000\<close> an accepted message appends the same price and volume in the same way,
  any other message leaves the buffers as they were, and a stream of messages leaves the
  buffers that the accepted ticks, appended in order, leave. After 150 ticks are
  appended to the empty buffers, through \<open>onTrade\<close> or as 150 accepted messages of
  \<open>part_000\<close>, each buffer has exactly 100 elements, which are input ticks 50 to 149 in
  input order, so the oldest retained tick is input number 50.
\<close>

theorem C6_capped_fifo:
  "length (buf_prices (onTrade price volume b)) \<le> 100
   \<and> length (buf_volumes (onTrade price volume b)) \<le> 100
   \<and> buf_prices (onTrade price volume b) = push_capped (buf_prices b) price
   \<and> buf_volumes (onTrade price volume b) = push_capped (buf_volumes b) volume
   \<and> (length prev = 100 \<longrightarrow> push_capped prev x = tl prev @ [x])
   \<and> (length prev < 100 \<longrightarrow> push_capped prev x = prev @ [x])
   \<and> (msg_type m = ''trade'' \<and> msg_data m = Some (d # ds) \<longrightarrow>
         onmessage m b = Inr (onTrade (trade_p d) (or_1 (trade_v d)) b))
   \<and> (accepted_p0 m \<and> msg_data m = Some (d # ds) \<longrightarrow>
         onmessage_p0 m b =
           Inr \<lparr>buf_prices = push_capped (buf_prices b) (trade_p d),
                buf_volumes = push_capped (buf_volumes b) (or_1 (trade_v d))\<rparr>)
   \<and> (\<not> accepted_p0 m \<longrightarrow>
         onmessage_p0 m b = Inr b \<or> onmessage_p0 m b = Inl TypeError)
   \<and> onmessage_p0_all ms b = onTrade_all (map tick_of (filter accepted_p0 ms)) b
   \<and> (length ticks = 150 \<longrightarrow>
         length (buf_prices (onTrade_all ticks empty_buffers)) = 100
         \<and> length (buf_volumes (onTrade_all ticks empty_buffers)) = 100
         \<and> buf_prices (onTrade_all ticks empty_buffers) = map fst (drop 50 ticks)
         \<and> buf_volumes (onTrade_all ticks empty_buffers) = map snd (drop 50 ticks)
         \<and> buf_prices (onTrade_all ticks empty_buffers) ! 0 = fst (ticks ! 50)
         \<and> buf_volumes (onTrade_all ticks empty_buffers) ! 0 = snd (ticks ! 50))
   \<and> (list_all accepted_p0 ms \<and> length ms = 150 \<longrightarrow>
         length (buf_prices (onmessage_p0_all ms empty_buffers)) = 100
         \<and> length (buf_volumes (onmessage_p0_all ms empty_buffers)) = 100
         \<and> buf_prices (onmessage_p0_all ms empty_buffers) = map (fst \<circ> tick_of) (drop 50 ms)
         \<and> buf_volumes (onmessage_p0_all ms empty_buffers) = map (snd \<circ> tick_of) (drop 50 ms)
         \<and> buf_prices (onmessage_p0_all ms empty_buffers) ! 0 = fst (tick_of (ms ! 50))
         \<and> buf_volumes (onmessage_p0_all ms empty_buffers) ! 0 = snd (tick_of (ms ! 50)))"
proof -
  have cap: "length (buf_prices (onTrade price volume b)) \<le> 100"
    "length (buf_volumes (onTrade price volume b)) \<le> 100"
    "buf_prices (onTrade price volume b) = push_capped (buf_prices b) price"
    "buf_volumes (onTrade price volume b) = push_capped (buf_volumes b) volume"
    by (simp_all add: onTrade_def length_push_capped)
  have short: "length prev < 100 \<longrightarrow> push_capped prev x = prev @ [x]"
    by (simp add: push_capped_def slice_last_def)
  have tsx: "msg_type m = ''trade'' \<and> msg_data m = Some (d # ds) \<longrightarrow>
         onmessage m b = Inr (onTrade (trade_p d) (or_1 (trade_v d)) b)"
    by (simp add: onmessage_def)
  have p0: "accepted_p0 m \<and> msg_data m = Some (d # ds) \<longrightarrow>
         onmessage_p0 m b =
           Inr \<lparr>buf_prices = push_capped (buf_prices b) (trade_p d),
                buf_volumes = push_capped (buf_volumes b) (or_1 (trade_v d))\<rparr>"
    by (auto simp: accepted_p0_def onmessage_p0_def Let_def)
  have rest: "\<not> accepted_p0 m \<longrightarrow>
         onmessage_p0 m b = Inr b \<or> onmessage_p0 m b = Inl TypeError"
    using onmessage_p0_not_accepted [of m b] by blast
  have all: "length ticks = 150 \<longrightarrow>
         length (buf_prices (onTrade_all ticks empty_buffers)) = 100
         \<and> length (buf_volumes (onTrade_all ticks empty_buffers)) = 100
         \<and> buf_prices (onTrade_all ticks empty_buffers) = map fst (drop 50 ticks)
         \<and> buf_volumes (onTrade_all ticks empty_buffers) = map snd (drop 50 ticks)
         \<and> buf_prices (onTrade_all ticks empty_buffers) ! 0 = fst (ticks ! 50)
         \<and> buf_volumes (onTrade_all ticks empty_buffers) ! 0 = snd (ticks ! 50)"
    by (simp add: onTrade_all_drop)
  have all0: "list_all accepted_p0 ms \<and> length ms = 150 \<longrightarrow>
         length (buf_prices (onmessage_p0_all ms empty_buffers)) = 100
         \<and> length (buf_volumes (onmessage_p0_all ms empty_buffers)) = 100
         \<and> buf_prices (onmessage_p0_all ms empty_buffers) = map (fst \<circ> tick_of) (drop 50 ms)
         \<and> buf_volumes (onmessage_p0_all ms empty_buffers) = map (snd \<circ> tick_of) (drop 50 ms)
         \<and> buf_prices (onmessage_p0_all ms empty_buffers) ! 0 = fst (tick_of (ms ! 50))
         \<and> buf_volumes (onmessage_p0_all ms empty_buffers) ! 0 = snd (tick_of (ms ! 50))"
    by (simp add: onmessage_p0_all_ticks filter_all onTrade_all_drop drop_map)
  from cap push_capped_full [of prev x] short tsx p0 rest onmessage_p0_all_ticks [of ms b]
    all all0
  show ?thesis by blast
qed

theorem C6_capped_fifo_witness:
  "length (replicate 100 (0::real)) = 100
   \<and> push_capped (replicate 100 (0::real)) 7 = tl (replicate 100 0) @ [7]
   \<and> length [3, 4 :: real] < 100
   \<and> push_capped [3, 4 :: real] 7 = [3, 4, 7]
   \<and> accepted_p0 zero_volume_msg
   \<and> msg_type zero_volume_msg = ''trade''
   \<and> msg_data zero_volume_msg = Some [\<lparr>trade_p = Some 100, trade_v = Some 0\<rparr>]
   \<and> onmessage zero_volume_msg \<lparr>buf_prices = [Some 99], buf_volumes = [5]\<rparr>
       = Inr \<lparr>buf_prices = [Some 99, Some 100], buf_volumes = [5, 1]\<rparr>
   \<and> onmessage_p0 zero_volume_msg \<lparr>buf_prices = [Some 99], buf_volumes = [5]\<rparr>
       = Inr \<lparr>buf_prices = [Some 99, Some 100], buf_volumes = [5, 1]\<rparr>
   \<and> \<not> accepted_p0 \<lparr>msg_type = ''ping'', msg_data = None\<rparr>
   \<and> onmessage_p0 \<lparr>msg_type = ''ping'', msg_data = None\<rparr>
         \<lparr>buf_prices = [Some 99], buf_volumes = [5]\<rparr>
       = Inr \<lparr>buf_prices = [Some 99], buf_volumes = [5]\<rparr>
   \<and> length ticks150 = 150
   \<and> length (buf_prices (onTrade_all ticks150 empty_buffers)) = 100
   \<and> length (buf_volumes (onTrade_all ticks150 empty_buffers)) = 100
   \<and> buf_prices (onTrade_all ticks150 empty_buffers) ! 0 = Some 50
   \<and> buf_volumes (onTrade_all ticks150 empty_buffers) ! 0 = 51
   \<and> list_all accepted_p0 msgs150 \<and> length msgs150 = 150
   \<and> length (buf_prices (onmessage_p0_all msgs150 empty_buffers)) = 100
   \<and> length (buf_volumes (onmessage_p0_all msgs150 empty_buffers)) = 100
   \<and> buf_prices (onmessage_p0_all msgs150 empty_buffers) ! 0 = Some 51
   \<and> buf_volumes (onmessage_p0_all msgs150 empty_buffers) ! 0 = 52"
proof -
  have len: "length ticks150 = 150" by (simp add: ticks150_def)
  have t50: "ticks150 ! 50 = (Some 50, 51)" by (simp add: ticks150_def)
  have acc: "accepted_p0 zero_volume_msg"
    "msg_type zero_volume_msg = ''trade''"
    "msg_data zero_volume_msg = Some [\<lparr>trade_p = Some 100, trade_v = Some 0\<rparr>]"
    by (simp_all add: accepted_p0_def zero_volume_msg_def truthy_def)
  have ping: "\<not> accepted_p0 \<lparr>msg_type = ''ping'', msg_data = None\<rparr>"
    by (simp add: accepted_p0_def)
  have ping_run: "onmessage_p0 \<lparr>msg_type = ''ping'', msg_data = None\<rparr>
         \<lparr>buf_prices = [Some 99], buf_volumes = [5]\<rparr>
       = Inr \<lparr>buf_prices = [Some 99], buf_volumes = [5]\<rparr>"
    by (simp add: onmessage_p0_def)
  have run: "onmessage zero_volume_msg \<lparr>buf_prices = [Some 99], buf_volumes = [5]\<rparr>
       = Inr \<lparr>buf_prices = [Some 99, Some 100], buf_volumes = [5, 1]\<rparr>"
    "onmessage_p0 zero_volume_msg \<lparr>buf_prices = [Some 99], buf_volumes = [5]\<rparr>
       = Inr \<lparr>buf_prices = [Some 99, Some 100], buf_volumes = [5, 1]\<rparr>"
    by (simp_all add: zero_volume_msg_def onmessage_def onmessage_p0_def onTrade_def
        push_capped_def slice_last_def or_1_def truthy_def)
  have small: "push_capped [3, 4 :: real] 7 = [3, 4, 7]"
    by (simp add: push_capped_def slice_last_def)
  have mlen: "length msgs150 = 150" by (simp add: msgs150_def)
  have macc: "list_all accepted_p0 msgs150"
    by (simp add: msgs150_def list_all_iff accepted_p0_def truthy_def)
  have m50: "tick_of (msgs150 ! 50) = (Some 51, 52)"
    by (simp add: msgs150_def tick_of_def or_1_def)
  note inst = C6_capped_fifo [where prev = "replicate 100 (0::real)" and x = 7
      and m = zero_volume_msg and b = empty_buffers and ticks = ticks150 and ms = msgs150]
  from inst have full: "push_capped (replicate 100 (0::real)) 7 = tl (replicate 100 0) @ [7]"
    by simp
  from inst len have ts:
    "length (buf_prices (onTrade_all ticks150 empty_buffers)) = 100"
    "length (buf_volumes (onTrade_all ticks150 empty_buffers)) = 100"
    "buf_prices (onTrade_all ticks150 empty_buffers) ! 0 = fst (ticks150 ! 50)"
    "buf_volumes (onTrade_all ticks150 empty_buffers) ! 0 = snd (ticks150 ! 50)"
    by blast+
  from inst mlen macc have ms:
    "length (buf_prices (onmessage_p0_all msgs150 empty_buffers)) = 100"
    "length (buf_volumes (onmessage_p0_all msgs150 empty_buffers)) = 100"
    "buf_prices (onmessage_p0_all msgs150 empty_buffers) ! 0 = fst (tick_of (msgs150 ! 50))"
    "buf_volumes (onmessage_p0_all msgs150 empty_buffers) ! 0 = snd (tick_of (msgs150 ! 50))"
    by blast+
  have l100: "length (replicate 100 (0::real)) = 100" "length [3, 4 :: real] < 100"
    by simp_all
  from full ts ms l100 len acc ping ping_run run small mlen macc
  show ?thesis
    unfolding t50 m50 fst_conv snd_conv by blast
qed

subsection \<open>Reconnect delay\<close>

lemma reconnect_delay_le: "reconnect_delay rc \<le> 30000"
  by (simp add: reconnect_delay_def)

lemma failed_attempts_delays:
  "mounted s \<Longrightarrow>
   failed_attempts n s = map (\<lambda>k. Some (reconnect_delay (retryCount s + k))) [0..<n]"
proof (induction n arbitrary: s)
  case 0
  show ?case by simp
next
  case (Suc n)
  have m: "mounted (timer_fired (onclose s))"
    using Suc.prems by (simp add: timer_fired_def onclose_def)
  have rc: "retryCount (timer_fired (onclose s)) = Suc (retryCount s)"
    using Suc.prems by (simp add: timer_fired_def onclose_def)
  have "[0..<Suc n] = 0 # map Suc [0..<n]"
    by (simp add: upt_conv_Cons map_Suc_upt del: upt_Suc)
  then show ?case
    using Suc.prems Suc.IH [OF m] rc
    by (simp add: onclose_def comp_def del: upt_Suc)
qed

text \<open>
  C7: the delay scheduled before a reconnection attempt is min(30000 ms, 1000 ms * 2 ^
  retryCount), and it never exceeds 30000 ms; the counter is incremented when the timer
  fires, after the delay was scheduled, so the k-th consecutive failure of a mounted hook
  schedules the delay for retryCount + k; from a fresh hook the first six delays are
  1000, 2000, 4000, 8000, 16000 and 30000 ms.
\<close>

theorem C7_backoff:
  "reconnect_delay rc = min 30000 (1000 * 2 ^ rc)
   \<and> reconnect_delay rc \<le> 30000
   \<and> map reconnect_delay [0, 1, 2, 3, 4, 5] = [1000, 2000, 4000, 8000, 16000, 30000]
   \<and> (mounted s \<longrightarrow>
        timeoutRef (onclose s) = Some (reconnect_delay (retryCount s))
        \<and> retryCount (onclose s) = retryCount s
        \<and> retryCount (timer_fired (onclose s)) = retryCount s + 1
        \<and> failed_attempts n s
            = map (\<lambda>k. Some (reconnect_delay (retryCount s + k))) [0..<n])
   \<and> failed_attempts 6 ws_init
       = [Some 1000, Some 2000, Some 4000, Some 8000, Some 16000, Some 30000]"
proof -
  have seq: "map reconnect_delay [0, 1, 2, 3, 4, 5] = [1000, 2000, 4000, 8000, 16000, 30000]"
    by (simp add: reconnect_delay_def)
  have gen: "mounted s \<longrightarrow>
        timeoutRef (onclose s) = Some (reconnect_delay (retryCount s))
        \<and> retryCount (onclose s) = retryCount s
        \<and> retryCount (timer_fired (onclose s)) = retryCount s + 1
        \<and> failed_attempts n s
            = map (\<lambda>k. Some (reconnect_delay (retryCount s + k))) [0..<n]"
    by (simp add: failed_attempts_delays onclose_def timer_fired_def)
  have "[0..<6] = [0, 1, 2, 3, 4, 5::nat]"
    by (simp add: upt_rec)
  then have six: "failed_attempts 6 ws_init
       = [Some 1000, Some 2000, Some 4000, Some 8000, Some 16000, Some 30000]"
    using failed_attempts_delays [of ws_init 6]
    by (simp add: ws_init_def reconnect_delay_def)
  from seq gen six reconnect_delay_le [of rc] show ?thesis
    by (simp add: reconnect_delay_def)
qed

theorem C7_backoff_witness:
  "mounted ws_init
   \<and> timeoutRef (onclose ws_init) = Some 1000
   \<and> retryCount (timer_fired (onclose ws_init)) = 1
   \<and> failed_attempts 3 ws_init = [Some 1000, Some 2000, Some 4000]"
proof -
  have m: "mounted ws_init" by (simp add: ws_init_def)
  have "[0..<3] = [0, 1, 2::nat]" by (simp add: upt_rec)
  then show ?thesis
    using C7_backoff [of 0 ws_init 3] m
    by (simp add: ws_init_def reconnect_delay_def)
qed

end
